theory Spec2Isabelle
  imports Main "HOL-Library.Word"
begin

section \<open>Host values: strings, numbers, permission\<close>

text \<open>
  An ECMAScript string is a sequence of 16-bit code units. The reminder's \<open>id\<close>,
  \<open>task\<close> and \<open>time\<close> and every message of the form are such strings.
\<close>

type_synonym jsstring = "16 word list"

text \<open>An ASCII literal of the source as a string of code units.\<close>

definition ascii :: "string \<Rightarrow> jsstring" where
  "ascii s = map (\<lambda>c. of_nat (of_char c)) s"

text \<open>
  \<open>String.prototype.trim\<close> strips the code points of the WhiteSpace and LineTerminator
  productions from both ends: TAB, LF, VT, FF, CR, SP, NBSP, U+1680, U+2000 to U+200A,
  U+2028, U+2029, U+202F, U+205F, U+3000 and U+FEFF. All of them are single code units.
\<close>

definition isWhiteSpace :: "16 word \<Rightarrow> bool" where
  "isWhiteSpace c =
     (c = 0x9 \<or> c = 0xA \<or> c = 0xB \<or> c = 0xC \<or> c = 0xD \<or> c = 0x20 \<or> c = 0xA0 \<or>
      c = 0x1680 \<or> (0x2000 \<le> c \<and> c \<le> 0x200A) \<or> c = 0x2028 \<or> c = 0x2029 \<or>
      c = 0x202F \<or> c = 0x205F \<or> c = 0x3000 \<or> c = 0xFEFF)"

definition trim :: "jsstring \<Rightarrow> jsstring" where
  "trim s = rev (dropWhile isWhiteSpace (rev (dropWhile isWhiteSpace s)))"

text \<open>
  \<open>Number.prototype.toString\<close> on an integer (\<open>Date.now()\<close> is an integral number of
  milliseconds, far below the magnitude where exponent notation starts): the decimal
  digits, most significant first, after a minus sign for a negative number.
\<close>

fun digits :: "nat \<Rightarrow> jsstring" where
  "digits n =
     (if n < 10 then [0x30 + of_nat n] else digits (n div 10) @ [0x30 + of_nat (n mod 10)])"

declare digits.simps [simp del]

definition toString :: "int \<Rightarrow> jsstring" where
  "toString n = (if n < 0 then 0x2D # digits (nat (- n)) else digits (nat n))"

text \<open>\<open>NotificationPermission\<close>: \<open>"default" | "granted" | "denied"\<close>.\<close>

datatype permission = Default | Granted | Denied

section \<open>The data model\<close>

text \<open>
  \<open>interface Reminder\<close>. The field \<open>id\<close> is \<open>id_str\<close> here, \<open>id\<close> being the identity
  function of HOL.
\<close>

record Reminder =
  id_str :: jsstring
  task :: jsstring
  time :: jsstring
  notifications :: bool
  completed :: bool

text \<open>
  What a user sees besides the state: a toast, a browser notification, a line on the
  console.
\<close>

datatype effect =
  Toast jsstring jsstring
  | BrowserNotification jsstring jsstring
  | ConsoleError jsstring

section \<open>The reminder store (\<open>ReminderSystem\<close>)\<close>

text \<open>
  \<open>new Date(s).getTime()\<close> is the host's: a parameter \<open>parseTime\<close> of the model, \<open>None\<close>
  standing for \<open>NaN\<close> (an invalid date). The comparator of \<open>addReminder\<close> subtracts two
  such numbers; a \<open>NaN\<close> operand makes the difference \<open>NaN\<close>.
\<close>

definition compareTime :: "(jsstring \<Rightarrow> int option) \<Rightarrow> Reminder \<Rightarrow> Reminder \<Rightarrow> int option" where
  "compareTime parseTime a b =
     (case (parseTime (time a), parseTime (time b)) of
        (Some x, Some y) \<Rightarrow> Some (x - y)
      | _ \<Rightarrow> None)"

text \<open>
  \<open>Array.prototype.sort\<close>. ECMAScript's SortCompare calls the comparator and reads a
  \<open>NaN\<close> result as \<open>+0\<close>. The sort is stable (required since ECMAScript 2019), and for a
  consistent comparator its result is the one stable ordering of the array; that result is
  computed here by insertion, each element entering in front of the part of the array that
  followed it. For a comparator that is not consistent (an unparseable time among
  parseable ones) the order is implementation-defined: what this function returns there is
  one choice and need not be an engine's, and the theorems below assume parseable times
  wherever they speak about order.
\<close>

definition sortCompare :: "('a \<Rightarrow> 'a \<Rightarrow> int option) \<Rightarrow> 'a \<Rightarrow> 'a \<Rightarrow> int" where
  "sortCompare comparefn x y = (case comparefn x y of None \<Rightarrow> 0 | Some v \<Rightarrow> v)"

fun insert_sorted :: "('a \<Rightarrow> 'a \<Rightarrow> int option) \<Rightarrow> 'a \<Rightarrow> 'a list \<Rightarrow> 'a list" where
  "insert_sorted comparefn x [] = [x]"
| "insert_sorted comparefn x (y # ys) =
     (if sortCompare comparefn x y \<le> 0 then x # y # ys
      else y # insert_sorted comparefn x ys)"

definition array_sort :: "('a \<Rightarrow> 'a \<Rightarrow> int option) \<Rightarrow> 'a list \<Rightarrow> 'a list" where
  "array_sort comparefn xs = foldr (insert_sorted comparefn) xs []"

text \<open>
  The three updates of the \<open>reminders\<close> state, each a function of the previous state as
  in the source's \<open>setReminders((prev) => ...)\<close>.
\<close>

definition addReminder :: "(jsstring \<Rightarrow> int option) \<Rightarrow> Reminder \<Rightarrow> Reminder list \<Rightarrow> Reminder list" where
  "addReminder parseTime reminder prev = array_sort (compareTime parseTime) (prev @ [reminder])"

definition deleteReminder :: "jsstring \<Rightarrow> Reminder list \<Rightarrow> Reminder list \<times> effect list" where
  "deleteReminder i prev =
     (filter (\<lambda>reminder. id_str reminder \<noteq> i) prev,
      [Toast (ascii ''Reminder deleted'') (ascii ''The reminder has been removed'')])"

definition toggleComplete :: "jsstring \<Rightarrow> Reminder list \<Rightarrow> Reminder list" where
  "toggleComplete i prev =
     map (\<lambda>reminder. if id_str reminder = i
                      then reminder\<lparr>completed := \<not> completed reminder\<rparr>
                      else reminder) prev"

text \<open>
  The list that \<open>UpcomingReminders\<close> renders. \<open>NaN > currentTime\<close> is false.
\<close>

definition activeReminders :: "(jsstring \<Rightarrow> int option) \<Rightarrow> int \<Rightarrow> Reminder list \<Rightarrow> Reminder list" where
  "activeReminders parseTime currentTime reminders =
     filter (\<lambda>reminder.
        (case parseTime (time reminder) of None \<Rightarrow> False | Some t \<Rightarrow> t > currentTime)
        \<or> \<not> completed reminder) reminders"

section \<open>The form (\<open>ReminderCard\<close>)\<close>

text \<open>
  The \<open>errors\<close> state: an object with the optional keys \<open>task\<close>, \<open>time\<close> and
  \<open>notification\<close>; \<open>None\<close> is an absent key.
\<close>

record Errors =
  task_err :: "jsstring option"
  time_err :: "jsstring option"
  notification_err :: "jsstring option"

definition no_errors :: Errors where
  "no_errors = \<lparr>task_err = None, time_err = None, notification_err = None\<rparr>"

text \<open>\<open>Object.keys(newErrors).length === 0\<close>.\<close>

definition no_keys :: "Errors \<Rightarrow> bool" where
  "no_keys e = (task_err e = None \<and> time_err e = None \<and> notification_err e = None)"

text \<open>
  The state of the component, one field for each \<open>useState\<close>. The fields \<open>task\<close>, \<open>time\<close>
  and \<open>notifications\<close> carry the suffix \<open>_st\<close>, the names without it being the
  reminder's.
\<close>

record Form =
  task_st :: jsstring
  time_st :: jsstring
  notifications_st :: bool
  isSubmitting :: bool
  errors :: Errors
  notificationPermission :: permission

text \<open>
  What the host answers during one submission: how \<open>Notification.requestPermission()\<close>
  ends (there may be no \<open>Notification\<close> in \<open>window\<close>, the promise may reject, or it
  resolves to a permission), the two readings of the clock (\<open>new Date().getTime()\<close> in
  \<open>validateForm\<close>, \<open>Date.now()\<close> where the reminder is built), the date parser and
  formatter, and whether \<open>new Notification\<close> throws.
\<close>

datatype request_outcome = NoNotificationAPI | RequestRejects | RequestResolves permission

record host =
  getTime :: "jsstring \<Rightarrow> int option"
  toLocaleString :: "jsstring \<Rightarrow> jsstring"
  validation_clock :: int
  creation_clock :: int
  request_result :: request_outcome
  notification_throws :: bool

text \<open>
  A handler reads the state variables of the render it was created in, and writes through
  the setters. In the functions below \<open>f\<close> is that render's state, read-only; the state
  being written is passed and returned separately where a function writes.
\<close>

definition requestNotificationPermission :: "host \<Rightarrow> Form \<Rightarrow> permission \<times> Form \<times> effect list" where
  "requestNotificationPermission h cur =
     (case request_result h of
        NoNotificationAPI \<Rightarrow> (Denied, cur, [])
      | RequestRejects \<Rightarrow>
          (Denied, cur, [ConsoleError (ascii ''Error requesting notification permission:'')])
      | RequestResolves permission \<Rightarrow>
          (permission, cur\<lparr>notificationPermission := permission\<rparr>, []))"

definition showBrowserNotification :: "host \<Rightarrow> Form \<Rightarrow> jsstring \<Rightarrow> jsstring \<Rightarrow> effect list" where
  "showBrowserNotification h f title body =
     (if notificationPermission f = Granted
      then (if notification_throws h
            then [ConsoleError (ascii ''Error showing notification:'')]
            else [BrowserNotification title body])
      else [])"

text \<open>
  \<open>validateForm\<close> builds \<open>newErrors\<close>, stores it with \<open>setErrors\<close> and returns whether it
  has no key; the model returns \<open>newErrors\<close>, and the caller does the rest.
  \<open>selectedTime <= currentTime\<close> is false when \<open>selectedTime\<close> is \<open>NaN\<close>.
\<close>

definition validateForm :: "host \<Rightarrow> Form \<Rightarrow> Errors" where
  "validateForm h f =
     (let e1 = (if trim (task_st f) = []
                then no_errors\<lparr>task_err := Some (ascii ''Please enter a task description'')\<rparr>
                else no_errors);
          e2 = (if time_st f = []
                then e1\<lparr>time_err := Some (ascii ''Please select a time for your reminder'')\<rparr>
                else (case getTime h (time_st f) of
                        None \<Rightarrow> e1
                      | Some selectedTime \<Rightarrow>
                          if selectedTime \<le> validation_clock h
                          then e1\<lparr>time_err := Some (ascii ''Please select a future time'')\<rparr>
                          else e1))
      in if notifications_st f \<and> notificationPermission f = Denied
         then e2\<lparr>notification_err := Some (ascii ''Notifications are blocked by your browser'')\<rparr>
         else e2)"

text \<open>The object \<open>newReminder\<close> that \<open>handleSubmit\<close> builds from the form.\<close>

definition newReminder :: "host \<Rightarrow> Form \<Rightarrow> Reminder" where
  "newReminder h f =
     \<lparr>id_str = toString (creation_clock h),
      task = task_st f,
      time = time_st f,
      notifications = notifications_st f,
      completed = False\<rparr>"

text \<open>The text of the toast and of the notification.\<close>

definition reminderMessage :: "host \<Rightarrow> Form \<Rightarrow> jsstring" where
  "reminderMessage h f =
     ascii ''You'' @ [0x27] @ ascii ''ll be reminded about '' @ [0x22] @ task_st f @ [0x22]
       @ ascii '' at '' @ toLocaleString h (time_st f)"

text \<open>
  \<open>handleSubmit\<close>, from the state \<open>f\<close> of the render and the store \<open>reminders\<close> to the
  state and the store after it, with the effects in the order they happen. The \<open>await\<close> is
  the call of \<open>requestNotificationPermission\<close>; nothing else runs in between. The
  \<open>catch\<close> branch is left out: no call of the \<open>try\<close> block throws in this model
  (\<open>new Notification\<close> is caught inside \<open>showBrowserNotification\<close>).
\<close>

definition handleSubmit :: "host \<Rightarrow> Form \<Rightarrow> Reminder list \<Rightarrow> Form \<times> Reminder list \<times> effect list" where
  "handleSubmit h f reminders =
     (let newErrors = validateForm h f;
          validated = f\<lparr>isSubmitting := True, errors := newErrors\<rparr>
      in if \<not> no_keys newErrors
         then (validated\<lparr>isSubmitting := False\<rparr>, reminders, [])
         else
           (let (permission, cur, fx) =
                  (if notifications_st f \<and> notificationPermission f \<noteq> Granted
                   then requestNotificationPermission h validated
                   else (Granted, validated, []))
            in if notifications_st f \<and> notificationPermission f \<noteq> Granted \<and> permission \<noteq> Granted
               then (cur\<lparr>errors := (errors cur)\<lparr>notification_err :=
                            Some (ascii ''Please allow notifications to receive reminders'')\<rparr>,
                          isSubmitting := False\<rparr>,
                     reminders, fx)
               else
                 (cur\<lparr>task_st := [], time_st := [], errors := no_errors, isSubmitting := False\<rparr>,
                  addReminder (getTime h) (newReminder h f) reminders,
                  fx @ [Toast (ascii ''Reminder set!'') (reminderMessage h f)]
                     @ (if notifications_st f \<and> notificationPermission f = Granted
                        then showBrowserNotification h f (ascii ''Reminder Set'')
                               (reminderMessage h f)
                        else []))))"

section \<open>Accepted submissions\<close>

text \<open>
  A submission goes through when \<open>validateForm\<close> finds no error and, where
  \<open>handleSubmit\<close> asks the host for the permission (notifications wanted, permission of
  the render not \<open>granted\<close>), the request resolves to \<open>granted\<close>.
\<close>

definition accepted :: "host \<Rightarrow> Form \<Rightarrow> bool" where
  "accepted h f =
     (no_keys (validateForm h f)
      \<and> (if notifications_st f \<and> notificationPermission f \<noteq> Granted
         then request_result h = RequestResolves Granted else True))"

section \<open>Order of the store\<close>

text \<open>
  Every reminder of the list has a time the host parses; the list is in non-decreasing
  order of those instants (\<open>NaN\<close> is not below or above anything).
\<close>

definition parseable :: "(jsstring \<Rightarrow> int option) \<Rightarrow> Reminder list \<Rightarrow> bool" where
  "parseable parseTime reminders = list_all (\<lambda>r. parseTime (time r) \<noteq> None) reminders"

fun number_le :: "int option \<Rightarrow> int option \<Rightarrow> bool" where
  "number_le (Some x) (Some y) = (x \<le> y)"
| "number_le _ _ = False"

definition time_le :: "(jsstring \<Rightarrow> int option) \<Rightarrow> Reminder \<Rightarrow> Reminder \<Rightarrow> bool" where
  "time_le parseTime a b = number_le (parseTime (time a)) (parseTime (time b))"

definition ascending :: "(jsstring \<Rightarrow> int option) \<Rightarrow> Reminder list \<Rightarrow> bool" where
  "ascending parseTime reminders = sorted_wrt (time_le parseTime) reminders"

text \<open>
  A mutation of the store, applied to the previous state; a sequence of them is a
  \<open>foldl\<close> from the initial state \<open>[]\<close> of \<open>useState\<close>.
\<close>

datatype mutation = Add Reminder | Delete jsstring | Toggle jsstring

fun mutate :: "(jsstring \<Rightarrow> int option) \<Rightarrow> Reminder list \<Rightarrow> mutation \<Rightarrow> Reminder list" where
  "mutate parseTime prev (Add reminder) = addReminder parseTime reminder prev"
| "mutate parseTime prev (Delete i) = fst (deleteReminder i prev)"
| "mutate parseTime prev (Toggle i) = toggleComplete i prev"

fun adds_parseable :: "(jsstring \<Rightarrow> int option) \<Rightarrow> mutation \<Rightarrow> bool" where
  "adds_parseable parseTime (Add reminder) = (parseTime (time reminder) \<noteq> None)"
| "adds_parseable parseTime _ = True"

abbreviation instant :: "(jsstring \<Rightarrow> int option) \<Rightarrow> Reminder \<Rightarrow> int" where
  "instant parseTime \<equiv> (\<lambda>r. the (parseTime (time r)))"

section \<open>Sample data\<close>

text \<open>
  A host that parses two local times (as UTC) and nothing else, and reminders at them.
\<close>

definition at0900 :: jsstring where
  "at0900 = ascii ''2030-01-01T09:00''"

definition at1000 :: jsstring where
  "at1000 = ascii ''2030-01-01T10:00''"

definition sample_parseTime :: "jsstring \<Rightarrow> int option" where
  "sample_parseTime s =
     (if s = at0900 then Some 1893488400000
      else if s = at1000 then Some 1893492000000
      else None)"

definition call_mom :: Reminder where
  "call_mom = \<lparr>id_str = ascii ''1'', task = ascii ''Call mom'', time = at1000,
                notifications = False, completed = False\<rparr>"

definition water_plants :: Reminder where
  "water_plants = \<lparr>id_str = ascii ''2'', task = ascii ''Water plants'', time = at0900,
                    notifications = False, completed = True\<rparr>"

definition pay_rent :: Reminder where
  "pay_rent = \<lparr>id_str = ascii ''3'', task = ascii ''Pay rent'', time = at1000,
                notifications = True, completed = False\<rparr>"

text \<open>
  A host whose clock reads 1700000000000 at both readings and which grants a permission
  request, and forms on it: a task with a space on either side, a task of white space
  only, the first task without notifications, a second task; and the same host with the
  clock at the instant of \<open>at1000\<close>.
\<close>

definition sample_host :: host where
  "sample_host = \<lparr>getTime = sample_parseTime, toLocaleString = (\<lambda>s. s),
                   validation_clock = 1700000000000, creation_clock = 1700000000000,
                   request_result = RequestResolves Granted, notification_throws = False\<rparr>"

definition sample_form :: Form where
  "sample_form = \<lparr>task_st = ascii '' Call mom '', time_st = at1000, notifications_st = True,
                   isSubmitting = False, errors = no_errors, notificationPermission = Default\<rparr>"

definition blank_form :: Form where
  "blank_form = sample_form\<lparr>task_st := [0x20, 0x9, 0xA0]\<rparr>"

definition quiet_form :: Form where
  "quiet_form = sample_form\<lparr>notifications_st := False\<rparr>"

definition rent_form :: Form where
  "rent_form = quiet_form\<lparr>task_st := ascii ''Pay rent''\<rparr>"

definition due_host :: host where
  "due_host = sample_host\<lparr>validation_clock := 1893492000000\<rparr>"

text \<open>The form without notifications, with a time the host does not parse.\<close>

definition tomorrow_form :: Form where
  "tomorrow_form = quiet_form\<lparr>time_st := ascii ''tomorrow''\<rparr>"

section \<open>The store stays in order\<close>

lemma insert_sorted_insort_key:
  "parseTime (time x) \<noteq> None \<Longrightarrow> parseable parseTime ys \<Longrightarrow>
   insert_sorted (compareTime parseTime) x ys = insort_key (instant parseTime) x ys"
  by (induction ys) (auto simp: parseable_def sortCompare_def compareTime_def)

lemma parseable_iff: "parseable parseTime rs \<longleftrightarrow> (\<forall>r \<in> set rs. parseTime (time r) \<noteq> None)"
  by (simp add: parseable_def list_all_iff)

lemma array_sort_sort_key:
  "parseable parseTime xs \<Longrightarrow>
   array_sort (compareTime parseTime) xs = sort_key (instant parseTime) xs"
proof (induction xs)
  case Nil
  show ?case by (simp add: array_sort_def)
next
  case (Cons x xs)
  from Cons.prems have px: "parseTime (time x) \<noteq> None" and pxs: "parseable parseTime xs"
    by (simp_all add: parseable_def)
  have "parseable parseTime (sort_key (instant parseTime) xs)"
    using pxs by (simp add: parseable_iff)
  with px have "insert_sorted (compareTime parseTime) x (sort_key (instant parseTime) xs)
      = insort_key (instant parseTime) x (sort_key (instant parseTime) xs)"
    by (rule insert_sorted_insort_key)
  moreover have "array_sort (compareTime parseTime) (x # xs)
      = insert_sorted (compareTime parseTime) x (array_sort (compareTime parseTime) xs)"
    by (simp add: array_sort_def)
  ultimately show ?case using Cons.IH [OF pxs] by simp
qed

lemma ascending_iff_sorted:
  assumes "parseable parseTime rs"
  shows "ascending parseTime rs \<longleftrightarrow> sorted (map (instant parseTime) rs)"
proof -
  have same: "time_le parseTime a b \<longleftrightarrow> instant parseTime a \<le> instant parseTime b"
    if "a \<in> set rs" and "b \<in> set rs" for a b
  proof -
    from that(1) assms obtain x where "parseTime (time a) = Some x"
      by (auto simp: parseable_iff)
    moreover from that(2) assms obtain y where "parseTime (time b) = Some y"
      by (auto simp: parseable_iff)
    ultimately show ?thesis by (simp add: time_le_def)
  qed
  have "sorted_wrt (time_le parseTime) rs
      \<longleftrightarrow> sorted_wrt (\<lambda>a b. instant parseTime a \<le> instant parseTime b) rs"
  proof
    assume "sorted_wrt (time_le parseTime) rs"
    then show "sorted_wrt (\<lambda>a b. instant parseTime a \<le> instant parseTime b) rs"
      by (rule sorted_wrt_mono_rel [rotated]) (simp add: same)
  next
    assume "sorted_wrt (\<lambda>a b. instant parseTime a \<le> instant parseTime b) rs"
    then show "sorted_wrt (time_le parseTime) rs"
      by (rule sorted_wrt_mono_rel [rotated]) (simp add: same)
  qed
  then show ?thesis by (simp add: ascending_def sorted_map)
qed

lemma addReminder_sort_key:
  "parseable parseTime prev \<Longrightarrow> parseTime (time reminder) \<noteq> None \<Longrightarrow>
   addReminder parseTime reminder prev = sort_key (instant parseTime) (prev @ [reminder])"
  by (simp add: addReminder_def array_sort_sort_key parseable_def)

lemma addReminder_set:
  "parseable parseTime prev \<Longrightarrow> parseTime (time reminder) \<noteq> None \<Longrightarrow>
   set (addReminder parseTime reminder prev) = insert reminder (set prev)"
  by (simp add: addReminder_sort_key)

lemma addReminder_parseable:
  "parseable parseTime prev \<Longrightarrow> parseTime (time reminder) \<noteq> None \<Longrightarrow>
   parseable parseTime (addReminder parseTime reminder prev)"
  by (simp add: addReminder_set parseable_iff)

lemma addReminder_ascending:
  "parseable parseTime prev \<Longrightarrow> parseTime (time reminder) \<noteq> None \<Longrightarrow>
   ascending parseTime (addReminder parseTime reminder prev)"
  by (simp add: ascending_iff_sorted addReminder_parseable) (simp add: addReminder_sort_key)

lemma deleteReminder_parseable:
  "parseable parseTime prev \<Longrightarrow> parseable parseTime (fst (deleteReminder i prev))"
  by (simp add: deleteReminder_def parseable_iff)

lemma deleteReminder_ascending:
  "ascending parseTime prev \<Longrightarrow> ascending parseTime (fst (deleteReminder i prev))"
  by (simp add: deleteReminder_def ascending_def sorted_wrt_filter)

lemma toggleComplete_times: "map time (toggleComplete i prev) = map time prev"
  by (induction prev) (simp_all add: toggleComplete_def)

lemma toggleComplete_parseable:
  "parseable parseTime prev \<Longrightarrow> parseable parseTime (toggleComplete i prev)"
  by (auto simp: toggleComplete_def parseable_iff)

lemma time_le_toggle:
  "time_le parseTime (if id_str a = i then a\<lparr>completed := \<not> completed a\<rparr> else a)
       (if id_str b = i then b\<lparr>completed := \<not> completed b\<rparr> else b)
   = time_le parseTime a b"
  by (simp add: time_le_def)

lemma toggleComplete_ascending:
  "ascending parseTime prev \<Longrightarrow> ascending parseTime (toggleComplete i prev)"
  by (simp only: toggleComplete_def ascending_def sorted_wrt_map time_le_toggle)

lemma activeReminders_ascending:
  "ascending parseTime reminders \<Longrightarrow> ascending parseTime (activeReminders parseTime now reminders)"
  by (simp add: activeReminders_def ascending_def sorted_wrt_filter)

lemma mutate_invariant:
  "parseable parseTime prev \<and> ascending parseTime prev \<Longrightarrow> adds_parseable parseTime m \<Longrightarrow>
   parseable parseTime (mutate parseTime prev m) \<and> ascending parseTime (mutate parseTime prev m)"
  by (cases m)
    (simp_all add: addReminder_parseable addReminder_ascending deleteReminder_parseable
      deleteReminder_ascending toggleComplete_parseable toggleComplete_ascending)

lemma foldl_mutate_invariant:
  "parseable parseTime prev \<and> ascending parseTime prev \<Longrightarrow> list_all (adds_parseable parseTime) ms \<Longrightarrow>
   parseable parseTime (foldl (mutate parseTime) prev ms) \<and> ascending parseTime (foldl (mutate parseTime) prev ms)"
proof (induction ms arbitrary: prev)
  case Nil
  then show ?case by simp
next
  case (Cons m ms)
  from Cons.prems have "parseable parseTime (mutate parseTime prev m) \<and> ascending parseTime (mutate parseTime prev m)"
    by (intro mutate_invariant) simp_all
  moreover from Cons.prems have "list_all (adds_parseable parseTime) ms" by simp
  ultimately show ?case using Cons.IH by simp
qed

lemma sample_parseTime_simps:
  "sample_parseTime at0900 = Some 1893488400000"
  "sample_parseTime at1000 = Some 1893492000000"
  by (simp_all add: sample_parseTime_def at0900_def at1000_def ascii_def)

text \<open>
  C1. When every time in the store and the new reminder's time parse, the store after
  \<open>addReminder\<close> is in non-decreasing order of time, whatever the order before; a store
  in that order is still in that order after \<open>deleteReminder\<close> and after
  \<open>toggleComplete\<close>, and so is the list read from it for display; so the store is in
  that order after any sequence of the three mutations from the empty store.
\<close>

theorem store_order_after_mutation:
  assumes "parseable parseTime reminders" and "parseTime (time reminder) \<noteq> None"
  shows "ascending parseTime (addReminder parseTime reminder reminders)
    \<and> (ascending parseTime reminders \<longrightarrow>
         ascending parseTime (fst (deleteReminder i reminders))
         \<and> ascending parseTime (toggleComplete i reminders)
         \<and> ascending parseTime (activeReminders parseTime now reminders))
    \<and> (list_all (adds_parseable parseTime) ms \<longrightarrow>
         ascending parseTime (foldl (mutate parseTime) [] ms))"
proof (intro conjI impI)
  show "ascending parseTime (addReminder parseTime reminder reminders)"
    using assms by (rule addReminder_ascending)
next
  assume "ascending parseTime reminders"
  then show "ascending parseTime (fst (deleteReminder i reminders))"
    by (rule deleteReminder_ascending)
next
  assume "ascending parseTime reminders"
  then show "ascending parseTime (toggleComplete i reminders)"
    by (rule toggleComplete_ascending)
next
  assume "ascending parseTime reminders"
  then show "ascending parseTime (activeReminders parseTime now reminders)"
    by (rule activeReminders_ascending)
next
  assume "list_all (adds_parseable parseTime) ms"
  moreover have "parseable parseTime [] \<and> ascending parseTime []"
    by (simp add: parseable_def ascending_def)
  ultimately show "ascending parseTime (foldl (mutate parseTime) [] ms)"
    using foldl_mutate_invariant by blast
qed

theorem store_order_after_mutation_witness:
  "parseable sample_parseTime [call_mom, pay_rent]
   \<and> sample_parseTime (time water_plants) \<noteq> None
   \<and> addReminder sample_parseTime water_plants [call_mom, pay_rent]
       = [water_plants, call_mom, pay_rent]
   \<and> ascending sample_parseTime (addReminder sample_parseTime water_plants [call_mom, pay_rent])
   \<and> ascending sample_parseTime [call_mom, pay_rent]
   \<and> ascending sample_parseTime (fst (deleteReminder (ascii ''1'') [call_mom, pay_rent]))
   \<and> ascending sample_parseTime (toggleComplete (ascii ''1'') [call_mom, pay_rent])
   \<and> ascending sample_parseTime (activeReminders sample_parseTime 1700000000000 [call_mom, pay_rent])
   \<and> list_all (adds_parseable sample_parseTime) [Add call_mom, Add water_plants, Toggle (ascii ''1'')]
   \<and> ascending sample_parseTime
        (foldl (mutate sample_parseTime) [] [Add call_mom, Add water_plants, Toggle (ascii ''1'')])"
proof -
  have p: "parseable sample_parseTime [call_mom, pay_rent]"
    by (simp add: parseable_def call_mom_def pay_rent_def sample_parseTime_simps)
  have q: "sample_parseTime (time water_plants) \<noteq> None"
    by (simp add: water_plants_def sample_parseTime_simps)
  have a: "ascending sample_parseTime [call_mom, pay_rent]"
    by (simp add: ascending_def time_le_def call_mom_def pay_rent_def sample_parseTime_simps)
  have l: "list_all (adds_parseable sample_parseTime)
             [Add call_mom, Add water_plants, Toggle (ascii ''1'')]"
    by (simp add: call_mom_def water_plants_def sample_parseTime_simps)
  have e: "addReminder sample_parseTime water_plants [call_mom, pay_rent]
       = [water_plants, call_mom, pay_rent]"
    by (simp add: addReminder_def array_sort_def sortCompare_def compareTime_def
        call_mom_def pay_rent_def water_plants_def sample_parseTime_simps)
  from store_order_after_mutation [OF p q, of "ascii ''1''" 1700000000000
      "[Add call_mom, Add water_plants, Toggle (ascii ''1'')]"] p q a l e
  show ?thesis by simp
qed

section \<open>Equal times keep the order of insertion\<close>

lemma sorted_three_parts:
  "sorted (map k xs) \<Longrightarrow>
   xs = filter (\<lambda>x. k x < t) xs @ filter (\<lambda>x. k x = t) xs @ filter (\<lambda>x. t < k x) xs"
  for k :: "'a \<Rightarrow> int"
proof (induction xs)
  case Nil
  show ?case by simp
next
  case (Cons x xs)
  then have rest: "xs = filter (\<lambda>x. k x < t) xs @ filter (\<lambda>x. k x = t) xs @ filter (\<lambda>x. t < k x) xs"
    and above: "\<forall>y \<in> set xs. k x \<le> k y"
    by simp_all
  consider "k x < t" | "k x = t" | "t < k x" by linarith
  then show ?case
  proof cases
    case 1
    with rest show ?thesis by simp
  next
    case 2
    with above have "filter (\<lambda>x. k x < t) xs = []" by (auto simp: filter_empty_conv)
    with 2 rest show ?thesis by simp
  next
    case 3
    with above have "filter (\<lambda>x. k x < t) xs = []" "filter (\<lambda>x. k x = t) xs = []"
      by (auto simp: filter_empty_conv)
    with 3 rest show ?thesis by simp
  qed
qed

lemma filter_instant:
  assumes "parseable parseTime rs"
  shows "filter (\<lambda>r. parseTime (time r) = Some t) rs = filter (\<lambda>r. instant parseTime r = t) rs"
  by (rule filter_cong) (use assms in \<open>auto simp: parseable_iff\<close>)

lemma addReminder_keeps_ties:
  assumes "parseable parseTime prev" and "parseTime (time reminder) \<noteq> None"
  shows "filter (\<lambda>r. parseTime (time r) = Some t) (addReminder parseTime reminder prev)
       = filter (\<lambda>r. parseTime (time r) = Some t) (prev @ [reminder])"
proof -
  have before: "parseable parseTime (prev @ [reminder])"
    using assms by (simp add: parseable_def)
  have after: "parseable parseTime (addReminder parseTime reminder prev)"
    using assms by (rule addReminder_parseable)
  have "filter (\<lambda>r. parseTime (time r) = Some t) (addReminder parseTime reminder prev)
      = filter (\<lambda>r. instant parseTime r = t) (addReminder parseTime reminder prev)"
    using after by (rule filter_instant)
  also have "\<dots> = filter (\<lambda>r. instant parseTime r = t) (sort_key (instant parseTime) (prev @ [reminder]))"
    using addReminder_sort_key [OF assms] by simp
  also have "\<dots> = filter (\<lambda>r. instant parseTime r = t) (prev @ [reminder])"
    by (rule sort_key_stable)
  also have "\<dots> = filter (\<lambda>r. parseTime (time r) = Some t) (prev @ [reminder])"
    using before by (rule filter_instant [symmetric])
  finally show ?thesis .
qed

text \<open>
  C5. With parseable times in the store, adding \<open>r1\<close> and then \<open>r2\<close>, both at the
  instant \<open>t\<close>, leaves the reminders of that instant in the order: those of the store as
  they were, then \<open>r1\<close>, then \<open>r2\<close>. In the store \<open>r1\<close> stands directly in front of
  \<open>r2\<close>, after every reminder that is not later and before every later one.
\<close>

theorem addReminder_stable:
  assumes "parseable parseTime reminders"
    and "parseTime (time r1) = Some t" and "parseTime (time r2) = Some t"
  shows "filter (\<lambda>r. parseTime (time r) = Some t)
             (addReminder parseTime r2 (addReminder parseTime r1 reminders))
           = filter (\<lambda>r. parseTime (time r) = Some t) reminders @ [r1, r2]
    \<and> (\<exists>front rest.
          addReminder parseTime r2 (addReminder parseTime r1 reminders) = front @ [r1, r2] @ rest
          \<and> list_all (\<lambda>r. time_le parseTime r r1) front
          \<and> list_all (\<lambda>r. \<not> time_le parseTime r r2) rest)"
proof -
  let ?k = "instant parseTime"
  let ?one = "addReminder parseTime r1 reminders"
  let ?two = "addReminder parseTime r2 ?one"
  have p1: "parseable parseTime ?one"
    using assms by (simp add: addReminder_parseable)
  have p2: "parseable parseTime ?two"
    using p1 assms by (simp add: addReminder_parseable)
  have ties: "filter (\<lambda>r. parseTime (time r) = Some t) ?two
      = filter (\<lambda>r. parseTime (time r) = Some t) reminders @ [r1, r2]"
    using assms p1 by (simp add: addReminder_keeps_ties)
  have "ascending parseTime ?two"
    using p1 assms by (simp add: addReminder_ascending)
  then have "sorted (map ?k ?two)"
    using p2 by (simp add: ascending_iff_sorted)
  then have "?two = filter (\<lambda>r. ?k r < t) ?two @ filter (\<lambda>r. ?k r = t) ?two
      @ filter (\<lambda>r. t < ?k r) ?two"
    by (rule sorted_three_parts)
  also have "filter (\<lambda>r. ?k r = t) ?two = filter (\<lambda>r. parseTime (time r) = Some t) reminders @ [r1, r2]"
    using ties p2 by (simp add: filter_instant)
  finally have split: "?two = (filter (\<lambda>r. ?k r < t) ?two
        @ filter (\<lambda>r. parseTime (time r) = Some t) reminders) @ [r1, r2]
      @ filter (\<lambda>r. t < ?k r) ?two"
    by simp
  have front: "list_all (\<lambda>r. time_le parseTime r r1)
      (filter (\<lambda>r. ?k r < t) ?two @ filter (\<lambda>r. parseTime (time r) = Some t) reminders)"
  proof -
    have "time_le parseTime r r1" if "r \<in> set ?two" and "?k r < t" for r
    proof -
      from that(1) p2 obtain x where "parseTime (time r) = Some x"
        by (auto simp: parseable_iff)
      with that(2) assms(2) show ?thesis by (simp add: time_le_def)
    qed
    moreover have "time_le parseTime r r1" if "parseTime (time r) = Some t" for r
      using that assms(2) by (simp add: time_le_def)
    ultimately show ?thesis by (auto simp: list_all_iff)
  qed
  have behind: "list_all (\<lambda>r. \<not> time_le parseTime r r2) (filter (\<lambda>r. t < ?k r) ?two)"
  proof -
    have "\<not> time_le parseTime r r2" if "r \<in> set ?two" and "t < ?k r" for r
    proof -
      from that(1) p2 obtain x where "parseTime (time r) = Some x"
        by (auto simp: parseable_iff)
      with that(2) assms(3) show ?thesis by (simp add: time_le_def)
    qed
    then show ?thesis by (simp add: list_all_iff)
  qed
  from ties split front behind show ?thesis by blast
qed

theorem addReminder_stable_witness:
  "parseable sample_parseTime [water_plants]
   \<and> sample_parseTime (time call_mom) = Some 1893492000000
   \<and> sample_parseTime (time pay_rent) = Some 1893492000000
   \<and> addReminder sample_parseTime pay_rent (addReminder sample_parseTime call_mom [water_plants])
       = [water_plants, call_mom, pay_rent]
   \<and> addReminder sample_parseTime call_mom (addReminder sample_parseTime pay_rent [water_plants])
       = [water_plants, pay_rent, call_mom]
   \<and> filter (\<lambda>r. sample_parseTime (time r) = Some 1893492000000)
         (addReminder sample_parseTime pay_rent (addReminder sample_parseTime call_mom [water_plants]))
       = [call_mom, pay_rent]"
proof -
  have p: "parseable sample_parseTime [water_plants]"
    by (simp add: parseable_def water_plants_def sample_parseTime_simps)
  have c: "sample_parseTime (time call_mom) = Some 1893492000000"
    by (simp add: call_mom_def sample_parseTime_simps)
  have r: "sample_parseTime (time pay_rent) = Some 1893492000000"
    by (simp add: pay_rent_def sample_parseTime_simps)
  have w: "sample_parseTime (time water_plants) = Some 1893488400000"
    by (simp add: water_plants_def sample_parseTime_simps)
  have e1: "addReminder sample_parseTime pay_rent (addReminder sample_parseTime call_mom [water_plants])
       = [water_plants, call_mom, pay_rent]"
    by (simp add: addReminder_def array_sort_def sortCompare_def compareTime_def c r w)
  have e2: "addReminder sample_parseTime call_mom (addReminder sample_parseTime pay_rent [water_plants])
       = [water_plants, pay_rent, call_mom]"
    by (simp add: addReminder_def array_sort_def sortCompare_def compareTime_def c r w)
  from addReminder_stable [OF p c r] p c r w e1 e2 show ?thesis by simp
qed

section \<open>Toggling and deleting\<close>

text \<open>
  C9. \<open>toggleComplete\<close> twice with the same \<open>id\<close> gives back the store it started
  from, so every reminder has its original \<open>completed\<close> value again; once, it negates
  \<open>completed\<close> in the reminders with that \<open>id\<close> and changes nothing else.
\<close>

theorem toggleComplete_involution:
  "toggleComplete i (toggleComplete i reminders) = reminders
   \<and> map completed (toggleComplete i reminders)
       = map (\<lambda>r. if id_str r = i then \<not> completed r else completed r) reminders
   \<and> map id_str (toggleComplete i reminders) = map id_str reminders"
proof (intro conjI)
  show "toggleComplete i (toggleComplete i reminders) = reminders"
    by (induction reminders) (simp_all add: toggleComplete_def)
  show "map completed (toggleComplete i reminders)
       = map (\<lambda>r. if id_str r = i then \<not> completed r else completed r) reminders"
    by (induction reminders) (simp_all add: toggleComplete_def)
  show "map id_str (toggleComplete i reminders) = map id_str reminders"
    by (induction reminders) (simp_all add: toggleComplete_def)
qed

theorem toggleComplete_involution_witness:
  "toggleComplete (ascii ''2'') [call_mom, water_plants]
     = [call_mom, water_plants\<lparr>completed := False\<rparr>]
   \<and> toggleComplete (ascii ''2'') (toggleComplete (ascii ''2'') [call_mom, water_plants])
     = [call_mom, water_plants]"
  using toggleComplete_involution [of "ascii ''2''" "[call_mom, water_plants]"]
  by (simp add: toggleComplete_def call_mom_def water_plants_def ascii_def)

text \<open>
  C8. \<open>deleteReminder\<close> twice with the same \<open>id\<close> leaves the store that one call
  leaves, and with an \<open>id\<close> that no reminder has it leaves the store as it was.
\<close>

theorem deleteReminder_idempotent:
  "fst (deleteReminder i (fst (deleteReminder i reminders))) = fst (deleteReminder i reminders)
   \<and> (i \<notin> set (map id_str reminders) \<longrightarrow> fst (deleteReminder i reminders) = reminders)"
proof (intro conjI impI)
  show "fst (deleteReminder i (fst (deleteReminder i reminders))) = fst (deleteReminder i reminders)"
    by (simp add: deleteReminder_def)
next
  assume "i \<notin> set (map id_str reminders)"
  then have "\<forall>r \<in> set reminders. id_str r \<noteq> i" by auto
  then show "fst (deleteReminder i reminders) = reminders"
    by (simp add: deleteReminder_def)
qed

theorem deleteReminder_idempotent_witness:
  "fst (deleteReminder (ascii ''1'') [call_mom, water_plants]) = [water_plants]
   \<and> fst (deleteReminder (ascii ''1'') (fst (deleteReminder (ascii ''1'') [call_mom, water_plants])))
       = [water_plants]
   \<and> ascii ''7'' \<notin> set (map id_str [call_mom, water_plants])
   \<and> fst (deleteReminder (ascii ''7'') [call_mom, water_plants]) = [call_mom, water_plants]"
  using deleteReminder_idempotent [of "ascii ''1''" "[call_mom, water_plants]"]
    deleteReminder_idempotent [of "ascii ''7''" "[call_mom, water_plants]"]
  by (simp add: deleteReminder_def call_mom_def water_plants_def ascii_def)

section \<open>The active view\<close>

text \<open>
  C2. A reminder is in the list \<open>UpcomingReminders\<close> shows exactly when it is in the
  store and its time is after now or it is not completed; it is left out exactly when it
  is completed and its time is not after now. A completed reminder alone in the store with
  a time before now gives the empty list; a reminder with a time after now is shown,
  completed or not.
\<close>

theorem activeReminders_includes:
  "(reminder \<in> set (activeReminders parseTime now reminders)
      \<longleftrightarrow> reminder \<in> set reminders
          \<and> ((\<exists>t. parseTime (time reminder) = Some t \<and> now < t) \<or> \<not> completed reminder))
   \<and> (reminder \<in> set reminders \<and> reminder \<notin> set (activeReminders parseTime now reminders)
      \<longleftrightarrow> reminder \<in> set reminders \<and> completed reminder
          \<and> \<not> (\<exists>t. parseTime (time reminder) = Some t \<and> now < t))
   \<and> (completed reminder \<and> (\<exists>t. parseTime (time reminder) = Some t \<and> t < now)
      \<longrightarrow> activeReminders parseTime now [reminder] = [])
   \<and> ((\<exists>t. parseTime (time reminder) = Some t \<and> now < t)
      \<longrightarrow> activeReminders parseTime now [reminder] = [reminder])"
  by (auto simp: activeReminders_def split: option.splits)

theorem activeReminders_includes_witness:
  "activeReminders sample_parseTime 1893490000000 [water_plants] = []
   \<and> water_plants \<notin> set (activeReminders sample_parseTime 1893490000000 [water_plants, call_mom])
   \<and> completed water_plants
   \<and> (\<exists>t. sample_parseTime (time water_plants) = Some t \<and> t < 1893490000000)
   \<and> activeReminders sample_parseTime 1893480000000 [water_plants] = [water_plants]
   \<and> (\<exists>t. sample_parseTime (time water_plants) = Some t \<and> 1893480000000 < t)"
proof -
  have c: "completed water_plants" by (simp add: water_plants_def)
  have t: "sample_parseTime (time water_plants) = Some 1893488400000"
    by (simp add: water_plants_def sample_parseTime_simps)
  from activeReminders_includes [of water_plants sample_parseTime 1893490000000 "[water_plants, call_mom]"]
    activeReminders_includes [of water_plants sample_parseTime 1893480000000 "[water_plants]"] c t
  show ?thesis by simp
qed

section \<open>Validation and submission\<close>

lemma trim_empty_iff: "trim s = [] \<longleftrightarrow> list_all isWhiteSpace s"
proof -
  have "trim s = [] \<longleftrightarrow> (\<forall>c \<in> set (dropWhile isWhiteSpace s). isWhiteSpace c)"
    by (simp add: trim_def dropWhile_eq_Nil_conv)
  also have "\<dots> \<longleftrightarrow> dropWhile isWhiteSpace s = []"
  proof
    assume all: "\<forall>c \<in> set (dropWhile isWhiteSpace s). isWhiteSpace c"
    show "dropWhile isWhiteSpace s = []"
    proof (cases "dropWhile isWhiteSpace s")
      case Nil
      then show ?thesis .
    next
      case (Cons c cs)
      then have "\<not> isWhiteSpace c" by (metis hd_dropWhile list.sel(1) list.distinct(1))
      with all Cons show ?thesis by simp
    qed
  next
    assume none: "dropWhile isWhiteSpace s = []"
    show "\<forall>c \<in> set (dropWhile isWhiteSpace s). isWhiteSpace c"
      unfolding none by simp
  qed
  also have "\<dots> \<longleftrightarrow> list_all isWhiteSpace s"
    by (simp add: dropWhile_eq_Nil_conv list_all_iff)
  finally show ?thesis .
qed

lemma validateForm_task_err:
  "task_err (validateForm h f) =
     (if trim (task_st f) = [] then Some (ascii ''Please enter a task description'') else None)"
  by (simp add: validateForm_def Let_def no_errors_def split: option.splits)

lemma validateForm_time_err:
  "time_err (validateForm h f) =
     (if time_st f = [] then Some (ascii ''Please select a time for your reminder'')
      else case getTime h (time_st f) of
             None \<Rightarrow> None
           | Some selectedTime \<Rightarrow>
               if selectedTime \<le> validation_clock h
               then Some (ascii ''Please select a future time'') else None)"
  by (simp add: validateForm_def Let_def no_errors_def split: option.splits)

lemma validateForm_notification_err:
  "notification_err (validateForm h f) =
     (if notifications_st f \<and> notificationPermission f = Denied
      then Some (ascii ''Notifications are blocked by your browser'') else None)"
  by (simp add: validateForm_def Let_def no_errors_def split: option.splits)

lemma handleSubmit_invalid:
  "\<not> no_keys (validateForm h f) \<Longrightarrow>
   handleSubmit h f reminders
     = (f\<lparr>isSubmitting := False, errors := validateForm h f\<rparr>, reminders, [])"
  by (simp add: handleSubmit_def Let_def)

lemma handleSubmit_accepted:
  assumes "accepted h f"
  shows "fst (snd (handleSubmit h f reminders)) = addReminder (getTime h) (newReminder h f) reminders"
    and "snd (snd (handleSubmit h f reminders)) =
          Toast (ascii ''Reminder set!'') (reminderMessage h f)
          # (if notifications_st f \<and> notificationPermission f = Granted
             then (if notification_throws h
                   then [ConsoleError (ascii ''Error showing notification:'')]
                   else [BrowserNotification (ascii ''Reminder Set'') (reminderMessage h f)])
             else [])"
  using assms
  by (auto simp: accepted_def handleSubmit_def Let_def newReminder_def
      requestNotificationPermission_def showBrowserNotification_def)


lemma handleSubmit_state:
  assumes "accepted h f"
  shows "task_st (fst (handleSubmit h f reminders)) = []"
    and "time_st (fst (handleSubmit h f reminders)) = []"
    and "errors (fst (handleSubmit h f reminders)) = no_errors"
    and "notificationPermission (fst (handleSubmit h f reminders)) =
          (if notifications_st f \<and> notificationPermission f \<noteq> Granted then Granted
           else notificationPermission f)"
  using assms
  by (auto simp: accepted_def handleSubmit_def Let_def requestNotificationPermission_def)

lemma set_insert_sorted: "set (insert_sorted comparefn x ys) = insert x (set ys)"
  by (induction ys) auto

lemma array_sort_simps:
  "array_sort comparefn [] = []"
  "array_sort comparefn (x # xs) = insert_sorted comparefn x (array_sort comparefn xs)"
  by (simp_all add: array_sort_def)

lemma set_array_sort: "set (array_sort comparefn xs) = set xs"
  by (induction xs) (simp_all add: array_sort_simps set_insert_sorted)

lemma distinct_map_insert_sorted:
  "distinct (map g (insert_sorted comparefn x ys)) \<longleftrightarrow> distinct (map g (x # ys))"
  by (induction ys) (auto simp: set_insert_sorted)

lemma distinct_map_array_sort:
  "distinct (map g (array_sort comparefn xs)) \<longleftrightarrow> distinct (map g xs)"
  by (induction xs) (simp_all add: array_sort_simps distinct_map_insert_sorted set_array_sort)

lemma addReminder_member: "set (addReminder parseTime reminder prev) = insert reminder (set prev)"
  by (simp add: addReminder_def set_array_sort)

lemma addReminder_distinct_ids:
  "distinct (map id_str (addReminder parseTime reminder prev))
     \<longleftrightarrow> distinct (map id_str prev) \<and> id_str reminder \<notin> set (map id_str prev)"
  by (auto simp: addReminder_def distinct_map_array_sort)

lemma granted_at_render_notifies:
  assumes "no_keys (validateForm h f)" and "notifications_st f"
    and "notificationPermission f = Granted" and "\<not> notification_throws h"
  shows "snd (snd (handleSubmit h f reminders))
     = [Toast (ascii ''Reminder set!'') (reminderMessage h f),
        BrowserNotification (ascii ''Reminder Set'') (reminderMessage h f)]"
proof -
  from assms have "accepted h f" by (simp add: accepted_def)
  with assms(2-4) show ?thesis by (simp add: handleSubmit_accepted)
qed

lemma fresh_clock_distinct_ids:
  assumes "accepted h f" and "distinct (map id_str reminders)"
    and "toString (creation_clock h) \<notin> set (map id_str reminders)"
  shows "distinct (map id_str (fst (snd (handleSubmit h f reminders))))"
  using assms by (simp add: handleSubmit_accepted addReminder_distinct_ids) (simp add: newReminder_def)

text \<open>The sample forms on the sample host.\<close>

lemma sample_times_nonempty: "at0900 \<noteq> []" "at1000 \<noteq> []"
  by (simp_all add: at0900_def at1000_def ascii_def)

lemma sample_form_valid: "no_keys (validateForm sample_host sample_form)"
  by (simp add: no_keys_def validateForm_task_err validateForm_time_err
      validateForm_notification_err sample_host_def sample_form_def sample_parseTime_simps
      sample_times_nonempty trim_def isWhiteSpace_def ascii_def)

lemma sample_form_accepted: "accepted sample_host sample_form"
  using sample_form_valid by (simp add: accepted_def) (simp add: sample_host_def)

lemma quiet_form_accepted: "accepted sample_host quiet_form"
proof -
  have "validateForm sample_host quiet_form = validateForm sample_host sample_form"
    by (simp add: validateForm_def quiet_form_def sample_form_def)
  with sample_form_valid show ?thesis by (simp add: accepted_def quiet_form_def)
qed

lemma rent_form_accepted: "accepted sample_host rent_form"
  by (simp add: accepted_def no_keys_def validateForm_task_err validateForm_time_err
      validateForm_notification_err sample_host_def sample_form_def quiet_form_def rent_form_def
      sample_parseTime_simps sample_times_nonempty trim_def isWhiteSpace_def ascii_def)

lemma addReminder_empty: "addReminder parseTime reminder [] = [reminder]"
  by (simp add: addReminder_def array_sort_def)

lemma digits_below_10: "n < 10 \<Longrightarrow> digits n = [0x30 + of_nat n]"
  by (subst digits.simps) simp

lemma digits_from_10: "10 \<le> n \<Longrightarrow> digits n = digits (n div 10) @ [0x30 + of_nat (n mod 10)]"
  by (subst digits.simps) simp

lemma toString_sample: "toString 1700000000000 = ascii ''1700000000000''"
  by (simp add: toString_def digits_below_10 digits_from_10 ascii_def)

section \<open>What the form rejects\<close>

text \<open>
  C3. When the task is empty or has white space only, \<open>handleSubmit\<close> leaves the error
  of the task field in \<open>errors\<close> and leaves the store as it was.
\<close>

theorem blank_task_rejected:
  assumes "list_all isWhiteSpace (task_st f)"
  shows "task_err (errors (fst (handleSubmit h f reminders)))
           = Some (ascii ''Please enter a task description'')
    \<and> fst (snd (handleSubmit h f reminders)) = reminders"
proof -
  from assms have "trim (task_st f) = []" by (simp add: trim_empty_iff)
  then have e: "task_err (validateForm h f) = Some (ascii ''Please enter a task description'')"
    by (simp add: validateForm_task_err)
  then have "\<not> no_keys (validateForm h f)" by (simp add: no_keys_def)
  then have "handleSubmit h f reminders
      = (f\<lparr>isSubmitting := False, errors := validateForm h f\<rparr>, reminders, [])"
    by (rule handleSubmit_invalid)
  with e show ?thesis by simp
qed

theorem blank_task_rejected_witness:
  "list_all isWhiteSpace (task_st blank_form)
   \<and> task_err (errors (fst (handleSubmit sample_host blank_form [call_mom])))
       = Some (ascii ''Please enter a task description'')
   \<and> fst (snd (handleSubmit sample_host blank_form [call_mom])) = [call_mom]"
proof -
  have b: "list_all isWhiteSpace (task_st blank_form)"
    by (simp add: blank_form_def isWhiteSpace_def)
  from blank_task_rejected [OF b] b show ?thesis by simp
qed

text \<open>
  Times that parse, and the empty time: a time that is present and parses to an instant
  not after the clock of the validation, the instant of the clock included, leaves the
  error of the time field and the store as it was; so does an empty time, with its own
  message. A present time that parses passes the time check exactly when its instant is
  after that clock.
\<close>

lemma time_not_future_rejected:
  "(time_st f \<noteq> [] \<and> getTime h (time_st f) = Some t \<and> t \<le> validation_clock h \<longrightarrow>
      time_err (errors (fst (handleSubmit h f reminders))) = Some (ascii ''Please select a future time'')
      \<and> fst (snd (handleSubmit h f reminders)) = reminders)
   \<and> (time_st f = [] \<longrightarrow>
      time_err (errors (fst (handleSubmit h f reminders)))
        = Some (ascii ''Please select a time for your reminder'')
      \<and> fst (snd (handleSubmit h f reminders)) = reminders)
   \<and> (time_st f \<noteq> [] \<and> getTime h (time_st f) = Some t \<longrightarrow>
      (time_err (validateForm h f) = None \<longleftrightarrow> validation_clock h < t))"
proof (intro conjI impI)
  assume a: "time_st f \<noteq> [] \<and> getTime h (time_st f) = Some t \<and> t \<le> validation_clock h"
  then have e: "time_err (validateForm h f) = Some (ascii ''Please select a future time'')"
    by (simp add: validateForm_time_err)
  then have "\<not> no_keys (validateForm h f)" by (simp add: no_keys_def)
  then have r: "handleSubmit h f reminders
      = (f\<lparr>isSubmitting := False, errors := validateForm h f\<rparr>, reminders, [])"
    by (rule handleSubmit_invalid)
  from r e show "time_err (errors (fst (handleSubmit h f reminders)))
      = Some (ascii ''Please select a future time'')" by simp
  from r show "fst (snd (handleSubmit h f reminders)) = reminders" by simp
next
  assume a: "time_st f = []"
  then have e: "time_err (validateForm h f) = Some (ascii ''Please select a time for your reminder'')"
    by (simp add: validateForm_time_err)
  then have "\<not> no_keys (validateForm h f)" by (simp add: no_keys_def)
  then have r: "handleSubmit h f reminders
      = (f\<lparr>isSubmitting := False, errors := validateForm h f\<rparr>, reminders, [])"
    by (rule handleSubmit_invalid)
  from r e show "time_err (errors (fst (handleSubmit h f reminders)))
      = Some (ascii ''Please select a time for your reminder'')" by simp
  from r show "fst (snd (handleSubmit h f reminders)) = reminders" by simp
next
  assume "time_st f \<noteq> [] \<and> getTime h (time_st f) = Some t"
  then show "time_err (validateForm h f) = None \<longleftrightarrow> validation_clock h < t"
    by (auto simp: validateForm_time_err)
qed

lemma time_not_future_rejected_sample:
  "time_st sample_form \<noteq> [] \<and> getTime due_host (time_st sample_form) = Some 1893492000000
   \<and> 1893492000000 \<le> validation_clock due_host
   \<and> time_err (errors (fst (handleSubmit due_host sample_form [call_mom])))
       = Some (ascii ''Please select a future time'')
   \<and> fst (snd (handleSubmit due_host sample_form [call_mom])) = [call_mom]
   \<and> validation_clock sample_host < 1893492000000
   \<and> time_err (validateForm sample_host sample_form) = None"
proof -
  have t: "time_st sample_form \<noteq> []"
    by (simp add: sample_form_def sample_times_nonempty)
  have g: "getTime due_host (time_st sample_form) = Some 1893492000000"
    by (simp add: due_host_def sample_host_def sample_form_def sample_parseTime_simps)
  have g': "getTime sample_host (time_st sample_form) = Some 1893492000000"
    by (simp add: sample_host_def sample_form_def sample_parseTime_simps)
  have c: "validation_clock due_host = 1893492000000"
    by (simp add: due_host_def)
  have c': "validation_clock sample_host < 1893492000000"
    by (simp add: sample_host_def)
  from time_not_future_rejected [of sample_form due_host 1893492000000 "[call_mom]"]
    time_not_future_rejected [of sample_form sample_host 1893492000000 "[call_mom]"]
    t g g' c c'
  show ?thesis by simp
qed

text \<open>
  C4. The time check lets more through than the strictly future times: a time that is
  present and that the host does not parse has the instant \<open>NaN\<close>, \<open>NaN <= currentTime\<close>
  is false, and \<open>validateForm\<close> sets no error for the time field. With a task that is not
  blank and no notifications wanted the form is valid, and \<open>handleSubmit\<close> stores a
  reminder with that time.
\<close>

theorem unparseable_time_accepted:
  assumes "time_st f \<noteq> []" and "getTime h (time_st f) = None"
    and "trim (task_st f) \<noteq> []" and "\<not> notifications_st f"
  shows "time_err (validateForm h f) = None
    \<and> no_keys (validateForm h f)
    \<and> errors (fst (handleSubmit h f reminders)) = no_errors
    \<and> fst (snd (handleSubmit h f reminders)) = addReminder (getTime h) (newReminder h f) reminders
    \<and> newReminder h f \<in> set (fst (snd (handleSubmit h f reminders)))
    \<and> time (newReminder h f) = time_st f"
proof -
  from assms(1,2) have t: "time_err (validateForm h f) = None"
    by (simp add: validateForm_time_err)
  with assms(3,4) have v: "no_keys (validateForm h f)"
    by (simp add: no_keys_def validateForm_task_err validateForm_notification_err)
  with assms(4) have a: "accepted h f"
    by (simp add: accepted_def)
  have "time (newReminder h f) = time_st f"
    by (simp add: newReminder_def)
  with t v a show ?thesis
    by (simp add: handleSubmit_accepted handleSubmit_state addReminder_member)
qed

theorem unparseable_time_accepted_witness:
  "time_st tomorrow_form \<noteq> []
   \<and> getTime sample_host (time_st tomorrow_form) = None
   \<and> trim (task_st tomorrow_form) \<noteq> []
   \<and> \<not> notifications_st tomorrow_form
   \<and> time_err (validateForm sample_host tomorrow_form) = None
   \<and> errors (fst (handleSubmit sample_host tomorrow_form [])) = no_errors
   \<and> fst (snd (handleSubmit sample_host tomorrow_form [])) = [newReminder sample_host tomorrow_form]
   \<and> time (newReminder sample_host tomorrow_form) = ascii ''tomorrow''"
proof -
  have t: "time_st tomorrow_form \<noteq> []"
    by (simp add: tomorrow_form_def ascii_def)
  have g: "getTime sample_host (time_st tomorrow_form) = None"
    by (simp add: tomorrow_form_def sample_host_def sample_parseTime_def at0900_def at1000_def
        ascii_def)
  have k: "trim (task_st tomorrow_form) \<noteq> []"
    by (simp add: tomorrow_form_def quiet_form_def sample_form_def trim_def isWhiteSpace_def
        ascii_def)
  have n: "\<not> notifications_st tomorrow_form"
    by (simp add: tomorrow_form_def quiet_form_def)
  have e: "time_st tomorrow_form = ascii ''tomorrow''"
    by (simp add: tomorrow_form_def)
  from unparseable_time_accepted [OF t g k n, of "[]"] t g k n e
  show ?thesis by (simp add: addReminder_empty)
qed

section \<open>What the form creates\<close>

text \<open>
  C10. An accepted submission adds the reminder \<open>newReminder\<close> to the store, and its
  task is the task of the form as typed: \<open>trim\<close> is applied in \<open>validateForm\<close> only.
\<close>

theorem task_stored_verbatim:
  assumes "accepted h f"
  shows "fst (snd (handleSubmit h f reminders)) = addReminder (getTime h) (newReminder h f) reminders
    \<and> newReminder h f \<in> set (fst (snd (handleSubmit h f reminders)))
    \<and> task (newReminder h f) = task_st f"
  using assms by (simp add: handleSubmit_accepted addReminder_member) (simp add: newReminder_def)

theorem task_stored_verbatim_witness:
  "accepted sample_host sample_form
   \<and> fst (snd (handleSubmit sample_host sample_form [])) = [newReminder sample_host sample_form]
   \<and> task (newReminder sample_host sample_form) = ascii '' Call mom ''
   \<and> trim (ascii '' Call mom '') = ascii ''Call mom''"
proof -
  have "trim (ascii '' Call mom '') = ascii ''Call mom''"
    by (simp add: trim_def isWhiteSpace_def ascii_def)
  with task_stored_verbatim [OF sample_form_accepted, of "[]"] sample_form_accepted
  show ?thesis by (simp add: addReminder_empty) (simp add: sample_form_def)
qed

text \<open>
  C6. A valid submission with notifications wanted, made when the permission of the render
  is not \<open>granted\<close> and granted by the host on request, stores the reminder and the new
  permission and shows the toast, and nothing else: \<open>handleSubmit\<close> and
  \<open>showBrowserNotification\<close> test the permission of the render, which is not
  \<open>granted\<close>, so no notification is made.
\<close>

theorem requested_permission_no_notification:
  assumes "no_keys (validateForm h f)" and "notifications_st f"
    and "notificationPermission f \<noteq> Granted" and "request_result h = RequestResolves Granted"
  shows "fst (snd (handleSubmit h f reminders)) = addReminder (getTime h) (newReminder h f) reminders
    \<and> notificationPermission (fst (handleSubmit h f reminders)) = Granted
    \<and> snd (snd (handleSubmit h f reminders)) = [Toast (ascii ''Reminder set!'') (reminderMessage h f)]"
proof -
  from assms have "accepted h f" by (simp add: accepted_def)
  with assms(2,3) show ?thesis
    by (simp add: handleSubmit_accepted handleSubmit_state)
qed

theorem requested_permission_no_notification_witness:
  "no_keys (validateForm sample_host sample_form)
   \<and> notifications_st sample_form
   \<and> notificationPermission sample_form = Default
   \<and> request_result sample_host = RequestResolves Granted
   \<and> fst (snd (handleSubmit sample_host sample_form [])) = [newReminder sample_host sample_form]
   \<and> notificationPermission (fst (handleSubmit sample_host sample_form [])) = Granted
   \<and> snd (snd (handleSubmit sample_host sample_form []))
       = [Toast (ascii ''Reminder set!'') (reminderMessage sample_host sample_form)]"
proof -
  have n: "notifications_st sample_form" by (simp add: sample_form_def)
  have d: "notificationPermission sample_form = Default" by (simp add: sample_form_def)
  then have d': "notificationPermission sample_form \<noteq> Granted" by simp
  have r: "request_result sample_host = RequestResolves Granted" by (simp add: sample_host_def)
  from requested_permission_no_notification [OF sample_form_valid n d' r, of "[]"]
    sample_form_valid n d r
  show ?thesis by (simp add: addReminder_empty)
qed

text \<open>
  C7. Two accepted submissions at the same reading of \<open>Date.now()\<close> build reminders with
  the same \<open>id\<close>, and the store after both holds an \<open>id\<close> twice.
\<close>

theorem same_clock_same_id:
  assumes "accepted h1 f1" and "accepted h2 f2" and "creation_clock h2 = creation_clock h1"
  shows "id_str (newReminder h2 f2) = id_str (newReminder h1 f1)
    \<and> \<not> distinct (map id_str
          (fst (snd (handleSubmit h2 f2 (fst (snd (handleSubmit h1 f1 reminders)))))))"
proof -
  let ?first = "fst (snd (handleSubmit h1 f1 reminders))"
  have same: "id_str (newReminder h2 f2) = id_str (newReminder h1 f1)"
    using assms(3) by (simp add: newReminder_def)
  have "newReminder h1 f1 \<in> set ?first"
    using assms(1) by (simp add: handleSubmit_accepted addReminder_member)
  then have "id_str (newReminder h2 f2) \<in> set (map id_str ?first)"
    using same by force
  then have "\<not> distinct (map id_str (addReminder (getTime h2) (newReminder h2 f2) ?first))"
    by (simp add: addReminder_distinct_ids)
  with same assms(2) show ?thesis by (simp add: handleSubmit_accepted)
qed

theorem same_clock_same_id_witness:
  "accepted sample_host quiet_form \<and> accepted sample_host rent_form
   \<and> map id_str (fst (snd (handleSubmit sample_host rent_form
            (fst (snd (handleSubmit sample_host quiet_form []))))))
       = [ascii ''1700000000000'', ascii ''1700000000000'']
   \<and> map task (fst (snd (handleSubmit sample_host rent_form
            (fst (snd (handleSubmit sample_host quiet_form []))))))
       = [ascii '' Call mom '', ascii ''Pay rent'']
   \<and> \<not> distinct (map id_str (fst (snd (handleSubmit sample_host rent_form
            (fst (snd (handleSubmit sample_host quiet_form [])))))))"
proof -
  have g: "getTime sample_host = sample_parseTime" by (simp add: sample_host_def)
  have c: "creation_clock sample_host = 1700000000000" by (simp add: sample_host_def)
  have t: "time (newReminder sample_host quiet_form) = at1000"
    "time (newReminder sample_host rent_form) = at1000"
    by (simp_all add: newReminder_def quiet_form_def rent_form_def sample_form_def)
  have s: "fst (snd (handleSubmit sample_host rent_form
            (fst (snd (handleSubmit sample_host quiet_form [])))))
       = [newReminder sample_host quiet_form, newReminder sample_host rent_form]"
    by (simp add: handleSubmit_accepted quiet_form_accepted rent_form_accepted addReminder_empty g)
      (simp add: addReminder_def array_sort_def sortCompare_def compareTime_def t
        sample_parseTime_simps)
  from same_clock_same_id [OF quiet_form_accepted rent_form_accepted refl, of "[]"]
    quiet_form_accepted rent_form_accepted s
  show ?thesis
    by (simp add: newReminder_def c toString_sample quiet_form_def rent_form_def sample_form_def)
qed

end
